theory Spec2Isabelle
  imports Complex_Main "HOL-Library.Char_ord"
begin

section \<open>Errors\<close>

text \<open>
  The two exception classes that \<^verbatim>\<open>backend/main.py\<close> raises itself. \<open>ValueError m\<close>
  carries its message; \<open>HTTPException status detail\<close> carries the status code and the
  detail string that the web framework sends to the caller.
\<close>

datatype exn = ValueError string | HTTPException nat string

section \<open>Video-identifier extraction\<close>

text \<open>
  Python strings are modelled as \<open>string\<close>, one \<open>char\<close> per code point below 256.
  \<open>isspace\<close> is the set of code points below 256 that \<^verbatim>\<open>str.strip()\<close> removes:
  tab, line feed, vertical tab, form feed, carriage return, the four separators
  0x1C..0x1F, space, 0x85 and 0xA0.
\<close>

definition isspace :: "char \<Rightarrow> bool" where
  "isspace c = (c \<in> set [CHR 0x09, CHR 0x0A, CHR 0x0B, CHR 0x0C, CHR 0x0D,
                           CHR 0x1C, CHR 0x1D, CHR 0x1E, CHR 0x1F, CHR 0x20,
                           CHR 0x85, CHR 0xA0])"

definition strip :: "string \<Rightarrow> string" where
  "strip s = rev (dropWhile isspace (rev (dropWhile isspace s)))"

text \<open>The character class \<^verbatim>\<open>[0-9A-Za-z_-]\<close>.\<close>

definition is_id_char :: "char \<Rightarrow> bool" where
  "is_id_char c = ((CHR ''0'' \<le> c \<and> c \<le> CHR ''9'') \<or> (CHR ''A'' \<le> c \<and> c \<le> CHR ''Z'')
                   \<or> (CHR ''a'' \<le> c \<and> c \<le> CHR ''z'') \<or> c = CHR ''_'' \<or> c = CHR ''-'')"

text \<open>
  The capture group \<^verbatim>\<open>([0-9A-Za-z_-]{11})\<close> matched at the head of \<open>s\<close>: exactly eleven
  characters of the class, returned as the group's text.
\<close>

definition id_group :: "string \<Rightarrow> string option" where
  "id_group s = (if 11 \<le> length s \<and> list_all is_id_char (take 11 s)
                 then Some (take 11 s) else None)"

text \<open>
  The five patterns have two shapes. \<open>Prefixed ps\<close> is
  \<^verbatim>\<open>(?:p1|p2|...)([0-9A-Za-z_-]{11})\<close>, with the literal alternatives \<open>ps\<close> in the
  order written (a trailing \<^verbatim>\<open>.*\<close> matches the empty string, so it never makes a match
  fail and never changes group 1). \<open>Anchored\<close> is \<^verbatim>\<open>^([0-9A-Za-z_-]{11})$\<close>.
\<close>

datatype pattern = Prefixed "string list" | Anchored

definition patterns :: "pattern list" where
  "patterns = [Prefixed [''v='', ''/''],
               Prefixed [''embed/''],
               Prefixed [''youtu.be/''],
               Prefixed [''shorts/''],
               Anchored]"

text \<open>
  Matching \<open>Prefixed ps\<close> at one position: the alternatives are tried from left to
  right, and the matcher backtracks to the next one when the group fails after a literal.
\<close>

fun match_here :: "string list \<Rightarrow> string \<Rightarrow> string option" where
  "match_here [] s = None"
| "match_here (p # ps) s =
     (case (if take (length p) s = p then id_group (drop (length p) s) else None) of
        Some g \<Rightarrow> Some g
      | None \<Rightarrow> match_here ps s)"

text \<open>\<^verbatim>\<open>re.search\<close> scans the start positions from left to right, the end of the string included.\<close>

fun scan :: "string list \<Rightarrow> string \<Rightarrow> string option" where
  "scan ps [] = match_here ps []"
| "scan ps (c # cs) =
     (case match_here ps (c # cs) of
        Some g \<Rightarrow> Some g
      | None \<Rightarrow> scan ps cs)"

text \<open>
  \<open>re_search p s\<close> is \<^verbatim>\<open>re.search(p, s)\<close> followed by \<^verbatim>\<open>.group(1)\<close>; \<open>None\<close> is no match.
  Python's \<^verbatim>\<open>$\<close> matches at the end of the string and before a line feed that ends it.
\<close>

fun re_search :: "pattern \<Rightarrow> string \<Rightarrow> string option" where
  "re_search (Prefixed ps) s = scan ps s"
| "re_search Anchored s =
     (case id_group s of
        Some g \<Rightarrow> (if drop 11 s = [] \<or> drop 11 s = [CHR 0x0A] then Some g else None)
      | None \<Rightarrow> None)"

text \<open>The loop over the patterns: the first pattern that matches decides.\<close>

fun first_match :: "pattern list \<Rightarrow> string \<Rightarrow> string option" where
  "first_match [] s = None"
| "first_match (p # ps) s =
     (case re_search p s of
        Some g \<Rightarrow> Some g
      | None \<Rightarrow> first_match ps s)"

definition extract_video_id :: "string \<Rightarrow> exn + string" where
  "extract_video_id youtube_url =
     (case first_match patterns (strip youtube_url) of
        Some g \<Rightarrow> Inr g
      | None \<Rightarrow> Inl (ValueError ''Could not extract video ID from URL''))"

section \<open>The Chunker\<close>

text \<open>
  Modelled from the spec: the Chunker. The source builds it from the third-party class
  \<^verbatim>\<open>RecursiveCharacterTextSplitter(chunk_size=7000, chunk_overlap=1000, length_function=len)\<close>
  and calls its \<^verbatim>\<open>split_text\<close>; that class is not part of the repository's sources.
  The spec's contract (section 4.1): given a text, a maximum segment size \<open>S\<close> and an
  overlap \<open>O < S\<close>, produce the ordered segments that cover the whole input without gaps,
  each of at most \<open>S\<close> characters, segment \<open>i+1\<close> beginning \<open>S - O\<close> characters after segment
  \<open>i\<close> begins; a non-empty input shorter than \<open>S\<close> yields exactly one segment (and so does one
  of exactly \<open>S\<close> characters, by the count the spec gives in section 8), the empty input
  yields the empty sequence, and chunking counts raw characters. The contract says nothing
  for \<open>S \<le> O\<close>; there the model does not slide and returns the text as one segment.
\<close>

function split_text :: "nat \<Rightarrow> nat \<Rightarrow> string \<Rightarrow> string list" where
  "split_text chunk_size chunk_overlap text =
     (if text = [] then []
      else if length text \<le> chunk_size \<or> chunk_size \<le> chunk_overlap then [text]
      else take chunk_size text
             # split_text chunk_size chunk_overlap (drop (chunk_size - chunk_overlap) text))"
  by pat_completeness auto
termination
  by (relation "measure (\<lambda>(chunk_size, chunk_overlap, text). length text)") auto

section \<open>The completion service\<close>

text \<open>
  The keyword arguments of \<^verbatim>\<open>groq_client.chat.completions.create\<close>; a message is the pair
  of its role and its content.
\<close>

record completion_request =
  model :: string
  messages :: "(string \<times> string) list"
  temperature :: real
  max_tokens :: nat

text \<open>
  The service is an external collaborator, so it is a parameter of the pipeline: a
  function from its own state \<open>'c\<close> and a request to an outcome and the next state. The
  outcome \<open>Inr content\<close> is the text \<^verbatim>\<open>response.choices[0].message.content\<close>; \<open>Inl e\<close> is
  any exception raised inside the \<^verbatim>\<open>try\<close> block around the call, \<open>e\<close> being its \<^verbatim>\<open>str(e)\<close>.
\<close>

type_synonym 'c client = "'c \<Rightarrow> completion_request \<Rightarrow> (string + string) \<times> 'c"

text \<open>What the pipeline does on the network, in the order it happens.\<close>

datatype event = Request completion_request | Response "string + string"

section \<open>The summarization pipeline\<close>

text \<open>Python's \<^verbatim>\<open>str\<close> of a natural number, as the f-string renders \<^verbatim>\<open>{i+1}\<close>.\<close>

fun str_nat :: "nat \<Rightarrow> string" where
  "str_nat n = (if n < 10 then [char_of (48 + n)]
                else str_nat (n div 10) @ [char_of (48 + n mod 10)])"

text \<open>\<^verbatim>\<open>sep.join(xs)\<close>.\<close>

fun join :: "string \<Rightarrow> string list \<Rightarrow> string" where
  "join sep [] = []"
| "join sep [x] = x"
| "join sep (x # y # ys) = x @ sep @ join sep (y # ys)"

definition segment_request :: "string \<Rightarrow> string \<Rightarrow> nat \<Rightarrow> string \<Rightarrow> completion_request" where
  "segment_request language_code model_name i text_chunk =
     (let system_prompt =
            ''You are an expert content summarizer. Create a detailed summary of section ''
            @ str_nat (i + 1) @ '' in '' @ language_code
            @ ''.\<newline>        Maintain important details, arguments, and connections. This summary will later be part of a comprehensive final summary.'';
          user_prompt =
            ''Summarize the following section:\<newline>        - Include key topics, arguments, examples\<newline>        - Ensure logical flow and clarity\<newline>\<newline>        Text: ''
            @ text_chunk
      in \<lparr>model = model_name,
          messages = [(''system'', system_prompt), (''user'', user_prompt)],
          temperature = 0.7,
          max_tokens = 8000\<rparr>)"

definition final_request :: "string \<Rightarrow> string \<Rightarrow> string list \<Rightarrow> completion_request" where
  "final_request language_code model_name intermediate_summaries =
     (let combined_summary =
            join ''\<newline>\<newline>=== Next Section ===\<newline>\<newline>'' intermediate_summaries;
          final_system_prompt =
            ''You are an expert summarizer. Create a well-structured summary in ''
            @ language_code
            @ '' \<newline>    from the provided intermediate summaries, ensuring logical connections.'';
          final_user_prompt =
            ''Summarize comprehensively:\<newline>    - Keep key points and logical flow\<newline>    - Make it understandable for someone unfamiliar with the content\<newline>    - Highlight any action items\<newline>\<newline>    Intermediate summaries:\<newline>    ''
            @ combined_summary
      in \<lparr>model = model_name,
          messages = [(''system'', final_system_prompt), (''user'', final_user_prompt)],
          temperature = 0.7,
          max_tokens = 8000\<rparr>)"

text \<open>
  The \<^verbatim>\<open>for i, text_chunk in enumerate(texts)\<close> loop of \<^verbatim>\<open>summarize_with_groq\<close>. \<open>i\<close> is the
  index of the head of the remaining chunks, \<open>intermediate_summaries\<close> the list built so
  far. A failed call raises at once: the remaining chunks are not visited. The third
  component of the result is the events of this run of the loop.
\<close>

fun summarize_segments ::
  "'c client \<Rightarrow> string \<Rightarrow> string \<Rightarrow> nat \<Rightarrow> string list \<Rightarrow> string list \<Rightarrow> 'c
     \<Rightarrow> (exn + string list) \<times> 'c \<times> event list" where
  "summarize_segments create language_code model_name i [] intermediate_summaries st =
     (Inr intermediate_summaries, st, [])"
| "summarize_segments create language_code model_name i (text_chunk # texts)
       intermediate_summaries st =
     (let req = segment_request language_code model_name i text_chunk in
      case create st req of
        (Inl e, st') \<Rightarrow>
          (Inl (HTTPException 500 (''Error with Groq API: '' @ e)), st',
           [Request req, Response (Inl e)])
      | (Inr content, st') \<Rightarrow>
          (case summarize_segments create language_code model_name (Suc i) texts
                  (intermediate_summaries @ [content]) st' of
             (r, st'', tr) \<Rightarrow> (r, st'', Request req # Response (Inr content) # tr)))"

text \<open>
  \<^verbatim>\<open>summarize_with_groq\<close>. \<open>text_splitter\<close> stands for the \<^verbatim>\<open>split_text\<close> of the splitter
  object the function builds; the pipeline is stated for any splitter, and
  \<open>split_text 7000 1000\<close> is the one the spec describes. \<open>mode\<close> is a parameter of the
  source function that its body never reads.
\<close>

definition summarize_with_groq ::
  "(string \<Rightarrow> string list) \<Rightarrow> 'c client \<Rightarrow> 'c \<Rightarrow> string \<Rightarrow> string \<Rightarrow> string \<Rightarrow> string
     \<Rightarrow> (exn + string) \<times> 'c \<times> event list" where
  "summarize_with_groq text_splitter create st transcript language_code model_name mode =
     (let texts = text_splitter transcript in
      case summarize_segments create language_code model_name 0 texts [] st of
        (Inl e, st', tr) \<Rightarrow> (Inl e, st', tr)
      | (Inr intermediate_summaries, st', tr) \<Rightarrow>
          (let req = final_request language_code model_name intermediate_summaries in
           case create st' req of
             (Inl e, st'') \<Rightarrow>
               (Inl (HTTPException 500 (''Error with Groq API: '' @ e)), st'',
                tr @ [Request req, Response (Inl e)])
           | (Inr content, st'') \<Rightarrow>
               (Inr content, st'', tr @ [Request req, Response (Inr content)])))"

section \<open>The request handler\<close>

record summarization_request =
  youtube_url :: string
  target_language :: string
  mode :: string
  user_email :: string

record summarization_response =
  summary :: string
  language :: string

text \<open>
  \<^verbatim>\<open>get_transcript\<close>. Everything after the extraction of the identifier (the cookie file,
  the transcript API) is the external transcript source, a parameter: given the
  identifier it returns the transcript and its language code, or \<open>Inl m\<close> when any
  exception is raised there, \<open>m\<close> being its \<^verbatim>\<open>str\<close>. The \<^verbatim>\<open>except Exception\<close> of the function
  turns every exception, the extractor's included, into status 400 with that text.
  The extractor raises \<open>ValueError\<close> only; the case for \<open>HTTPException\<close> below is there
  because the type has it, and is never taken.
\<close>

definition get_transcript ::
  "(string \<Rightarrow> string + string \<times> string) \<Rightarrow> string \<Rightarrow> exn + string \<times> string" where
  "get_transcript transcript_source url =
     (case extract_video_id url of
        Inl (ValueError m) \<Rightarrow> Inl (HTTPException 400 m)
      | Inl (HTTPException status detail) \<Rightarrow> Inl (HTTPException 400 detail)
      | Inr video_id \<Rightarrow>
          (case transcript_source video_id of
             Inl m \<Rightarrow> Inl (HTTPException 400 m)
           | Inr (full_transcript, language_code) \<Rightarrow> Inr (full_transcript, language_code)))"

text \<open>
  \<^verbatim>\<open>summarize_video\<close>, the handler of \<^verbatim>\<open>POST /summarize/\<close>. Its \<^verbatim>\<open>except Exception\<close> catches
  whatever the two calls raise, \<open>HTTPException\<close> included, and raises status 500 with
  the fixed detail. The calls to the logger write to the log file only and are left out.
\<close>

definition summarize_video ::
  "(string \<Rightarrow> string list) \<Rightarrow> (string \<Rightarrow> string + string \<times> string) \<Rightarrow> 'c client \<Rightarrow> 'c
     \<Rightarrow> summarization_request \<Rightarrow> (exn + summarization_response) \<times> 'c \<times> event list" where
  "summarize_video text_splitter transcript_source create st request =
     (case get_transcript transcript_source (youtube_url request) of
        Inl e \<Rightarrow> (Inl (HTTPException 500 ''Internal Server Error''), st, [])
      | Inr (transcript, language_code) \<Rightarrow>
          (case summarize_with_groq text_splitter create st transcript
                  (target_language request) ''llama-3.1-8b-instant'' (mode request) of
             (Inl e, st', tr) \<Rightarrow> (Inl (HTTPException 500 ''Internal Server Error''), st', tr)
           | (Inr s, st', tr) \<Rightarrow>
               (Inr \<lparr>summary = s, language = target_language request\<rparr>, st', tr)))"

section \<open>Reading a run\<close>

text \<open>The completion requests of a run, in the order they were issued.\<close>

fun issued :: "event list \<Rightarrow> completion_request list" where
  "issued [] = []"
| "issued (Request r # es) = r # issued es"
| "issued (Response x # es) = issued es"

text \<open>
  The events of successful segment calls, one chunk and one summary at a time: the request
  for chunk \<open>i\<close>, its response, then the request for chunk \<open>i + 1\<close>, and so on.
\<close>

fun segment_events ::
  "string \<Rightarrow> string \<Rightarrow> nat \<Rightarrow> string list \<Rightarrow> string list \<Rightarrow> event list" where
  "segment_events language_code model_name i (c # cs) (s # ss) =
     Request (segment_request language_code model_name i c) # Response (Inr s)
       # segment_events language_code model_name (Suc i) cs ss"
| "segment_events language_code model_name i cs ss = []"

text \<open>
  The completion service answering a list of requests one after the other: each request
  is put to it in the state that its previous answer left. The result is the answers in
  order and the state after the last one.
\<close>

fun answers :: "'c client \<Rightarrow> 'c \<Rightarrow> completion_request list \<Rightarrow> (string + string) list \<times> 'c" where
  "answers create st [] = ([], st)"
| "answers create st (r # rs) =
     (case create st r of
        (x, st') \<Rightarrow> (case answers create st' rs of (xs, st'') \<Rightarrow> (x # xs, st'')))"

section \<open>The extractor\<close>

lemmas extractor_defs = extract_video_id_def patterns_def strip_def isspace_def id_group_def
  is_id_char_def

text \<open>
  C8: the reference \<open>https://youtu.be/dQw4w9WgXcQ\<close> and the bare reference
  \<open>dQw4w9WgXcQ\<close> both extract the identifier \<open>dQw4w9WgXcQ\<close>, and the reference
  \<open>not a url\<close> raises the extractor's error.
\<close>

theorem extract_video_id_scenarios:
  "extract_video_id ''https://youtu.be/dQw4w9WgXcQ'' = Inr ''dQw4w9WgXcQ''
   \<and> extract_video_id ''dQw4w9WgXcQ'' = Inr ''dQw4w9WgXcQ''
   \<and> extract_video_id ''not a url'' = Inl (ValueError ''Could not extract video ID from URL'')"
  by (simp add: extractor_defs)

subsection \<open>Every match is a well-formed identifier\<close>

lemma id_group_Some: "id_group s = Some g \<Longrightarrow> length g = 11 \<and> list_all is_id_char g"
  by (auto simp: id_group_def split: if_splits)

lemma match_here_Some: "match_here ps s = Some g \<Longrightarrow> length g = 11 \<and> list_all is_id_char g"
  by (induction ps) (auto split: option.splits if_splits dest: id_group_Some)

lemma scan_Some: "scan ps s = Some g \<Longrightarrow> length g = 11 \<and> list_all is_id_char g"
  by (induction s) (auto split: option.splits dest: match_here_Some)

lemma re_search_Some: "re_search p s = Some g \<Longrightarrow> length g = 11 \<and> list_all is_id_char g"
  by (cases p) (auto split: option.splits if_splits dest: scan_Some id_group_Some)

lemma first_match_Some: "first_match ps s = Some g \<Longrightarrow> length g = 11 \<and> list_all is_id_char g"
  by (induction ps) (auto split: option.splits dest: re_search_Some)

subsection \<open>Whitespace around the reference\<close>

lemma strip_padding:
  assumes "list_all isspace l" and "list_all isspace r"
  shows "strip (l @ s @ r) = strip s"
proof -
  have l: "dropWhile isspace (l @ s @ r) = dropWhile isspace (s @ r)"
    using assms(1) by (intro dropWhile_append2) (auto simp: list_all_iff)
  have r: "dropWhile isspace (rev r @ xs) = dropWhile isspace xs" for xs
    using assms(2) by (intro dropWhile_append2) (auto simp: list_all_iff)
  show ?thesis
  proof (cases "list_all isspace s")
    case True
    have a: "dropWhile isspace (s @ r) = []"
      using True assms(2) by (simp add: list_all_iff)
    have b: "dropWhile isspace s = []"
      using True by (simp add: list_all_iff)
    show ?thesis by (simp only: strip_def l a b)
  next
    case False
    then obtain x where x: "x \<in> set s" "\<not> isspace x" by (auto simp: list_all_iff)
    then have "dropWhile isspace (s @ r) = dropWhile isspace s @ r"
      by (rule dropWhile_append1)
    then show ?thesis by (simp add: strip_def l r)
  qed
qed

text \<open>
  C10: whenever the extractor succeeds, the identifier it returns has exactly 11
  characters, each an ASCII letter, a digit, a hyphen or an underscore; and whitespace
  before and after the reference does not change what the extractor returns, because
  the reference is stripped before any pattern is tried.
\<close>

theorem extract_video_id_shape_and_strip:
  "(extract_video_id s = Inr v \<longrightarrow> length v = 11 \<and> list_all is_id_char v)
   \<and> (list_all isspace l \<and> list_all isspace r \<longrightarrow>
        extract_video_id (l @ s @ r) = extract_video_id s)"
proof (rule conjI; rule impI)
  assume "extract_video_id s = Inr v"
  then have "first_match patterns (strip s) = Some v"
    by (simp add: extract_video_id_def split: option.splits)
  then show "length v = 11 \<and> list_all is_id_char v" by (rule first_match_Some)
next
  assume "list_all isspace l \<and> list_all isspace r"
  then have "strip (l @ s @ r) = strip s" by (simp add: strip_padding)
  then show "extract_video_id (l @ s @ r) = extract_video_id s"
    by (simp add: extract_video_id_def)
qed

theorem extract_video_id_shape_and_strip_witness:
  "extract_video_id ''https://youtu.be/dQw4w9WgXcQ'' = Inr ''dQw4w9WgXcQ''
   \<and> length ''dQw4w9WgXcQ'' = 11 \<and> list_all is_id_char ''dQw4w9WgXcQ''
   \<and> list_all isspace '' '' \<and> list_all isspace [CHR 0x09, CHR 0x0A]
   \<and> extract_video_id ('' '' @ ''https://youtu.be/dQw4w9WgXcQ'' @ [CHR 0x09, CHR 0x0A])
       = extract_video_id ''https://youtu.be/dQw4w9WgXcQ''"
proof -
  have e: "extract_video_id ''https://youtu.be/dQw4w9WgXcQ'' = Inr ''dQw4w9WgXcQ''"
    by (simp add: extractor_defs)
  have w: "list_all isspace '' '' \<and> list_all isspace [CHR 0x09, CHR 0x0A]"
    by (simp add: isspace_def)
  note t = extract_video_id_shape_and_strip
             [of "''https://youtu.be/dQw4w9WgXcQ''" "''dQw4w9WgXcQ''" "'' ''"
                 "[CHR 0x09, CHR 0x0A]"]
  from t e have "length ''dQw4w9WgXcQ'' = 11 \<and> list_all is_id_char ''dQw4w9WgXcQ''"
    by blast
  moreover from t w have
    "extract_video_id ('' '' @ ''https://youtu.be/dQw4w9WgXcQ'' @ [CHR 0x09, CHR 0x0A])
       = extract_video_id ''https://youtu.be/dQw4w9WgXcQ''"
    by blast
  ultimately show ?thesis using e w by blast
qed

section \<open>The Chunker of the spec\<close>

declare split_text.simps [simp del]
declare str_nat.simps [simp del]

lemma split_text_empty: "split_text S ov [] = []"
  by (simp add: split_text.simps)

lemma split_text_short: "t \<noteq> [] \<Longrightarrow> length t \<le> S \<Longrightarrow> split_text S ov t = [t]"
  by (simp add: split_text.simps)

lemma split_text_long:
  "ov < S \<Longrightarrow> S < length t \<Longrightarrow>
   split_text S ov t = take S t # split_text S ov (drop (S - ov) t)"
  by (subst split_text.simps) auto

text \<open>Segment \<open>i\<close> is the window of \<open>S\<close> characters that starts at offset \<open>i * (S - O)\<close>.\<close>

lemma split_text_nth:
  "ov < S \<Longrightarrow> i < length (split_text S ov t) \<Longrightarrow>
   split_text S ov t ! i = take S (drop (i * (S - ov)) t)"
proof (induction S ov t arbitrary: i rule: split_text.induct)
  case (1 S ov t)
  show ?case
  proof (cases "t = [] \<or> length t \<le> S")
    case True
    with "1.prems" show ?thesis
      by (cases "t = []") (simp_all add: split_text_empty split_text_short)
  next
    case False
    then have long: "S < length t" and ne: "t \<noteq> []" by auto
    have unf: "split_text S ov t = take S t # split_text S ov (drop (S - ov) t)"
      using "1.prems"(1) long by (rule split_text_long)
    show ?thesis
    proof (cases i)
      case 0
      then show ?thesis by (simp add: unf)
    next
      case (Suc j)
      with "1.prems" unf have j: "j < length (split_text S ov (drop (S - ov) t))" by simp
      have "split_text S ov (drop (S - ov) t) ! j
              = take S (drop (j * (S - ov)) (drop (S - ov) t))"
        using "1.IH" ne long "1.prems"(1) j by simp
      then show ?thesis using Suc unf by (simp add: add.commute)
    qed
  qed
qed

text \<open>The number of segments for the sizes the source configures, in integer arithmetic.\<close>

lemma split_text_count:
  "t \<noteq> [] \<Longrightarrow>
   int (length (split_text 7000 1000 t)) = max 1 (- ((1000 - int (length t)) div 6000))"
proof (induction "7000::nat" "1000::nat" t rule: split_text.induct)
  case (1 t)
  show ?case
  proof (cases "length t \<le> 7000")
    case True
    then show ?thesis using "1.prems" by (simp add: split_text_short)
  next
    case False
    then have long: "7000 < length t" by simp
    have unf: "split_text 7000 1000 t = take 7000 t # split_text 7000 1000 (drop 6000 t)"
      using split_text_long [of 1000 7000 t] long by simp
    have ne: "drop 6000 t \<noteq> []" using long by simp
    have "int (length (split_text 7000 1000 (drop 6000 t)))
          = max 1 (- ((1000 - int (length (drop 6000 t))) div 6000))"
      using "1.hyps" "1.prems" long ne by simp
    then show ?thesis using long unf by simp
  qed
qed

lemma ceiling_segments:
  "\<lceil>(real (length t) - 1000) / (7000 - 1000)\<rceil> = - ((1000 - int (length t)) div 6000)"
proof -
  have "(real (length t) - 1000) / (7000 - 1000)
          = real_of_int (int (length t) - 1000) / real_of_int 6000"
    by simp
  moreover have "\<lceil>real_of_int (int (length t) - 1000) / real_of_int 6000\<rceil>
                  = - (- (int (length t) - 1000) div 6000)"
    by (rule ceiling_divide_eq_div)
  ultimately show ?thesis by simp
qed

lemma split_text_20500:
  assumes "length t = 20500"
  shows "split_text 7000 1000 t
           = [take 7000 t, take 7000 (drop 6000 t), take 7000 (drop 12000 t), drop 18000 t]"
proof -
  have 1: "split_text 7000 1000 t = take 7000 t # split_text 7000 1000 (drop 6000 t)"
    using split_text_long [of 1000 7000 t] assms by simp
  have 2: "split_text 7000 1000 (drop 6000 t)
           = take 7000 (drop 6000 t) # split_text 7000 1000 (drop 12000 t)"
    using split_text_long [of 1000 7000 "drop 6000 t"] assms by simp
  have 3: "split_text 7000 1000 (drop 12000 t)
           = take 7000 (drop 12000 t) # split_text 7000 1000 (drop 18000 t)"
    using split_text_long [of 1000 7000 "drop 12000 t"] assms by simp
  have 4: "split_text 7000 1000 (drop 18000 t) = [drop 18000 t]"
    using split_text_short [of "drop 18000 t" 7000 1000] assms by simp
  show ?thesis by (simp only: 1 2 3 4)
qed

text \<open>
  C1, as the spec states it, promises at least one segment for every transcript. The
  Chunker yields no segment for the empty transcript, where the formula bounded below by
  1 gives 1.
\<close>

theorem split_text_count_empty_counterexample:
  "\<not> (int (length (split_text 7000 1000 []))
        = max 1 \<lceil>(real (length ([]::string)) - 1000) / (7000 - 1000)\<rceil>)"
  by (simp add: split_text_empty)

text \<open>
  C1, amended: for every non-empty transcript of length \<open>L\<close>, chunked with maximum segment
  size 7000 and overlap 1000, the Chunker produces exactly
  \<open>max 1 (ceil ((L - 1000) / (7000 - 1000)))\<close> segments, and segment \<open>i\<close> is the window of
  at most 7000 characters that starts at offset \<open>i * (7000 - 1000)\<close> of the transcript; a
  transcript of 20500 characters yields the four segments that start at offsets 0, 6000,
  12000 and 18000, the last of length 2500.
\<close>

theorem split_text_count_and_offsets:
  assumes "t \<noteq> []"
  shows "int (length (split_text 7000 1000 t))
           = max 1 \<lceil>(real (length t) - 1000) / (7000 - 1000)\<rceil>
         \<and> (\<forall>i < length (split_text 7000 1000 t).
               split_text 7000 1000 t ! i = take 7000 (drop (i * (7000 - 1000)) t))
         \<and> (length t = 20500 \<longrightarrow>
               split_text 7000 1000 t
                 = [take 7000 t, take 7000 (drop 6000 t), take 7000 (drop 12000 t),
                    drop 18000 t]
               \<and> length (last (split_text 7000 1000 t)) = 2500)"
proof (intro conjI allI impI)
  show "int (length (split_text 7000 1000 t))
          = max 1 \<lceil>(real (length t) - 1000) / (7000 - 1000)\<rceil>"
    using split_text_count [OF assms] by (simp only: ceiling_segments)
next
  fix i assume "i < length (split_text 7000 1000 t)"
  then show "split_text 7000 1000 t ! i = take 7000 (drop (i * (7000 - 1000)) t)"
    using split_text_nth [of 1000 7000 i t] by simp
next
  assume "length t = 20500"
  then show "split_text 7000 1000 t
      = [take 7000 t, take 7000 (drop 6000 t), take 7000 (drop 12000 t), drop 18000 t]"
    by (rule split_text_20500)
next
  assume L: "length t = 20500"
  show "length (last (split_text 7000 1000 t)) = 2500"
    by (simp add: split_text_20500 [OF L] L)
qed

theorem split_text_count_and_offsets_witness:
  "replicate 20500 (CHR ''a'') \<noteq> []
   \<and> length (replicate 20500 (CHR ''a'')) = 20500
   \<and> length (split_text 7000 1000 (replicate 20500 (CHR ''a''))) = 4
   \<and> split_text 7000 1000 (replicate 20500 (CHR ''a'')) ! 3 = replicate 2500 (CHR ''a'')"
proof -
  let ?t = "replicate 20500 (CHR ''a'')"
  have ne: "?t \<noteq> []" by simp
  have L: "length ?t = 20500" by simp
  note r = split_text_count_and_offsets [OF ne]
  from r L have s: "split_text 7000 1000 ?t
      = [take 7000 ?t, take 7000 (drop 6000 ?t), take 7000 (drop 12000 ?t), drop 18000 ?t]"
    by blast
  show ?thesis using ne s by simp
qed

text \<open>
  C6, as the spec states it, covers the empty transcript, which is shorter than 7000
  characters: the Chunker returns no segment for it, not one empty segment.
\<close>

theorem split_text_short_empty_counterexample:
  "\<not> (length ([]::string) < 7000 \<longrightarrow> split_text 7000 1000 [] = [[]])"
  by (simp add: split_text_empty)

text \<open>
  C6, amended: for every non-empty transcript strictly shorter than the maximum segment
  size of 7000 characters, the Chunker returns exactly one segment, whose text is the
  whole transcript.
\<close>

theorem split_text_short_transcript:
  "t \<noteq> [] \<Longrightarrow> length t < 7000 \<Longrightarrow> split_text 7000 1000 t = [t]"
  by (simp add: split_text_short)

theorem split_text_short_transcript_witness:
  "''abc'' \<noteq> [] \<and> length ''abc'' < 7000 \<and> split_text 7000 1000 ''abc'' = [''abc'']"
  using split_text_short_transcript [of "''abc''"] by simp

section \<open>The segment loop\<close>

text \<open>
  Running the loop over \<open>pre @ post\<close> is running it over \<open>pre\<close> and, when that did not
  raise, over \<open>post\<close> from the state, the index and the summaries it left.
\<close>

lemma summarize_segments_append:
  "summarize_segments create lc mn i (pre @ post) acc st =
     (case summarize_segments create lc mn i pre acc st of
        (Inl e, st1, tr1) \<Rightarrow> (Inl e, st1, tr1)
      | (Inr summaries, st1, tr1) \<Rightarrow>
          (case summarize_segments create lc mn (i + length pre) post summaries st1 of
             (r, st2, tr2) \<Rightarrow> (r, st2, tr1 @ tr2)))"
proof (induction pre arbitrary: i acc st)
  case Nil
  then show ?case by (simp split: prod.splits)
next
  case (Cons c pre)
  show ?case
    by (simp add: Cons.IH Let_def split: prod.splits sum.splits)
qed

text \<open>
  A run of the loop that does not raise has added one summary per chunk, and its events
  are the request and the response of each chunk in turn.
\<close>

lemma summarize_segments_success:
  "summarize_segments create lc mn i texts acc st = (Inr summaries, st', tr) \<Longrightarrow>
   \<exists>new. summaries = acc @ new \<and> length new = length texts
         \<and> tr = segment_events lc mn i texts new"
proof (induction texts arbitrary: i acc st tr)
  case Nil
  then show ?case by simp
next
  case (Cons c texts)
  from Cons.prems obtain content st1 tr1 where
    call: "create st (segment_request lc mn i c) = (Inr content, st1)" and
    rest: "summarize_segments create lc mn (Suc i) texts (acc @ [content]) st1
             = (Inr summaries, st', tr1)" and
    tr: "tr = Request (segment_request lc mn i c) # Response (Inr content) # tr1"
    by (auto simp: Let_def split: prod.splits sum.splits)
  from Cons.IH [OF rest] obtain new where
    new: "summaries = (acc @ [content]) @ new" "length new = length texts"
         "tr1 = segment_events lc mn (Suc i) texts new"
    by blast
  show ?case
  proof (intro exI conjI)
    show "summaries = acc @ (content # new)" using new(1) by simp
    show "length (content # new) = length (c # texts)" using new(2) by simp
    show "tr = segment_events lc mn i (c # texts) (content # new)" using tr new(3) by simp
  qed
qed

lemma issued_segment_events:
  "length ss = length cs \<Longrightarrow>
   issued (segment_events lc mn i cs ss)
     = map (\<lambda>(j, c). segment_request lc mn j c) (enumerate i cs)"
  by (induction cs arbitrary: i ss) (case_tac ss; simp)+

lemma issued_append: "issued (xs @ ys) = issued xs @ issued ys"
  by (induction xs rule: issued.induct) simp_all

text \<open>A small splitter run for the examples below: three chunks of four characters.\<close>

lemma split_text_example: "split_text 4 2 ''abcdefgh'' = [''abcd'', ''cdef'', ''efgh'']"
proof -
  have 1: "split_text 4 2 ''abcdefgh'' = ''abcd'' # split_text 4 2 ''cdefgh''"
    using split_text_long [of 2 4 "''abcdefgh''"] by simp
  have 2: "split_text 4 2 ''cdefgh'' = ''cdef'' # split_text 4 2 ''efgh''"
    using split_text_long [of 2 4 "''cdefgh''"] by simp
  have 3: "split_text 4 2 ''efgh'' = [''efgh'']"
    using split_text_short [of "''efgh''" 4 2] by simp
  show ?thesis by (simp only: 1 2 3)
qed

section \<open>Failures of the completion service\<close>

text \<open>
  C3: let the transcript chunk into the segments \<open>pre @ chunk # post\<close>, so that \<open>chunk\<close> is
  segment \<open>k = length pre\<close>. If the calls for the segments before \<open>k\<close> succeeded and the
  call for segment \<open>k\<close> fails with \<open>e\<close>, then the pipeline raises the status-500 error that
  carries \<open>e\<close>, no summary is returned, and the requests it has issued are exactly those of
  the segments \<open>0..k\<close>, in order: none for a later segment and none for the synthesis.
\<close>

theorem segment_failure_aborts_pipeline:
  assumes split: "text_splitter transcript = pre @ chunk # post"
    and before: "summarize_segments create lc mn 0 pre [] st = (Inr earlier, st1, tr1)"
    and failed: "create st1 (segment_request lc mn (length pre) chunk) = (Inl e, st2)"
  shows "summarize_with_groq text_splitter create st transcript lc mn m
           = (Inl (HTTPException 500 (''Error with Groq API: '' @ e)), st2,
              tr1 @ [Request (segment_request lc mn (length pre) chunk), Response (Inl e)])
         \<and> issued (tr1 @ [Request (segment_request lc mn (length pre) chunk),
                            Response (Inl e)])
           = map (\<lambda>(i, c). segment_request lc mn i c) (enumerate 0 (pre @ [chunk]))"
proof
  have "summarize_segments create lc mn 0 (pre @ chunk # post) [] st
          = (Inl (HTTPException 500 (''Error with Groq API: '' @ e)), st2,
             tr1 @ [Request (segment_request lc mn (length pre) chunk), Response (Inl e)])"
    by (simp add: summarize_segments_append before failed Let_def)
  then show "summarize_with_groq text_splitter create st transcript lc mn m
           = (Inl (HTTPException 500 (''Error with Groq API: '' @ e)), st2,
              tr1 @ [Request (segment_request lc mn (length pre) chunk), Response (Inl e)])"
    by (simp add: summarize_with_groq_def split)
next
  from summarize_segments_success [OF before] obtain new where
    new: "length new = length pre" "tr1 = segment_events lc mn 0 pre new"
    by blast
  show "issued (tr1 @ [Request (segment_request lc mn (length pre) chunk), Response (Inl e)])
           = map (\<lambda>(i, c). segment_request lc mn i c) (enumerate 0 (pre @ [chunk]))"
    by (simp add: issued_append new issued_segment_events enumerate_append_eq)
qed

theorem segment_failure_aborts_pipeline_witness:
  "split_text 4 2 ''abcdefgh'' = [''abcd''] @ ''cdef'' # [''efgh'']
   \<and> summarize_segments (\<lambda>n req. (if n = 1 then Inl ''down'' else Inr ''ok'', Suc n))
         ''en'' ''llama'' 0 [''abcd''] [] (0::nat)
       = (Inr [''ok''], 1,
          [Request (segment_request ''en'' ''llama'' 0 ''abcd''), Response (Inr ''ok'')])
   \<and> summarize_with_groq (split_text 4 2)
         (\<lambda>n req. (if n = 1 then Inl ''down'' else Inr ''ok'', Suc n)) (0::nat)
         ''abcdefgh'' ''en'' ''llama'' ''video''
       = (Inl (HTTPException 500 ''Error with Groq API: down''), 2,
          [Request (segment_request ''en'' ''llama'' 0 ''abcd''), Response (Inr ''ok''),
           Request (segment_request ''en'' ''llama'' 1 ''cdef''), Response (Inl ''down'')])"
proof -
  let ?create = "\<lambda>n req. (if n = 1 then Inl ''down'' else Inr ''ok'', Suc n)
                   :: (string + string) \<times> nat"
  have h1: "split_text 4 2 ''abcdefgh'' = [''abcd''] @ ''cdef'' # [''efgh'']"
    by (simp add: split_text_example)
  have h2: "summarize_segments ?create ''en'' ''llama'' 0 [''abcd''] [] (0::nat)
       = (Inr [''ok''], 1,
          [Request (segment_request ''en'' ''llama'' 0 ''abcd''), Response (Inr ''ok'')])"
    by simp
  have h3: "?create 1 (segment_request ''en'' ''llama'' (length [''abcd'']) ''cdef'')
              = (Inl ''down'', 2)"
    by simp
  from segment_failure_aborts_pipeline
         [of "split_text 4 2" "''abcdefgh''", OF h1 h2 h3, of "''video''"] h1 h2
  show ?thesis by simp
qed

text \<open>
  C4: if the calls for all the segments succeeded, so that one summary per segment has
  been collected, and the synthesis call then fails with \<open>e\<close>, the pipeline raises the
  status-500 error that carries \<open>e\<close>: what the caller gets is that error, and none of the
  collected summaries.
\<close>

theorem synthesis_failure_returns_error:
  assumes segments: "summarize_segments create lc mn 0 (text_splitter transcript) [] st
                       = (Inr summaries, st1, tr1)"
    and failed: "create st1 (final_request lc mn summaries) = (Inl e, st2)"
  shows "length summaries = length (text_splitter transcript)
         \<and> summarize_with_groq text_splitter create st transcript lc mn m
           = (Inl (HTTPException 500 (''Error with Groq API: '' @ e)), st2,
              tr1 @ [Request (final_request lc mn summaries), Response (Inl e)])"
proof
  from summarize_segments_success [OF segments]
  show "length summaries = length (text_splitter transcript)" by auto
  show "summarize_with_groq text_splitter create st transcript lc mn m
           = (Inl (HTTPException 500 (''Error with Groq API: '' @ e)), st2,
              tr1 @ [Request (final_request lc mn summaries), Response (Inl e)])"
    by (simp add: summarize_with_groq_def segments failed Let_def)
qed

theorem synthesis_failure_returns_error_witness:
  "summarize_segments (\<lambda>n req. (if n = 3 then Inl ''down'' else Inr ''ok'', Suc n))
         ''en'' ''llama'' 0 (split_text 4 2 ''abcdefgh'') [] (0::nat)
       = (Inr [''ok'', ''ok'', ''ok''], 3,
          [Request (segment_request ''en'' ''llama'' 0 ''abcd''), Response (Inr ''ok''),
           Request (segment_request ''en'' ''llama'' 1 ''cdef''), Response (Inr ''ok''),
           Request (segment_request ''en'' ''llama'' 2 ''efgh''), Response (Inr ''ok'')])
   \<and> summarize_with_groq (split_text 4 2)
         (\<lambda>n req. (if n = 3 then Inl ''down'' else Inr ''ok'', Suc n)) (0::nat)
         ''abcdefgh'' ''en'' ''llama'' ''video''
       = (Inl (HTTPException 500 ''Error with Groq API: down''), 4,
          [Request (segment_request ''en'' ''llama'' 0 ''abcd''), Response (Inr ''ok''),
           Request (segment_request ''en'' ''llama'' 1 ''cdef''), Response (Inr ''ok''),
           Request (segment_request ''en'' ''llama'' 2 ''efgh''), Response (Inr ''ok''),
           Request (final_request ''en'' ''llama'' [''ok'', ''ok'', ''ok'']),
           Response (Inl ''down'')])"
proof -
  let ?create = "\<lambda>n req. (if n = 3 then Inl ''down'' else Inr ''ok'', Suc n)
                   :: (string + string) \<times> nat"
  have h1: "summarize_segments ?create ''en'' ''llama'' 0 (split_text 4 2 ''abcdefgh'') []
              (0::nat)
       = (Inr [''ok'', ''ok'', ''ok''], 3,
          [Request (segment_request ''en'' ''llama'' 0 ''abcd''), Response (Inr ''ok''),
           Request (segment_request ''en'' ''llama'' 1 ''cdef''), Response (Inr ''ok''),
           Request (segment_request ''en'' ''llama'' 2 ''efgh''), Response (Inr ''ok'')])"
    unfolding split_text_example by (simp add: numeral_2_eq_2)
  have h2: "?create 3 (final_request ''en'' ''llama'' [''ok'', ''ok'', ''ok''])
              = (Inl ''down'', 4)"
    by simp
  from synthesis_failure_returns_error
         [where text_splitter = "split_text 4 2" and transcript = "''abcdefgh''"
            and m = "''video''", OF h1 h2] h1
  show ?thesis by simp
qed

section \<open>Successful runs\<close>

text \<open>
  A run of the loop that does not raise has put the segment requests to the service one
  after the other, each in the state the previous answer left; the summaries it added are
  the texts the service answered, and the state it ends in is the state the service was
  left in.
\<close>

lemma summarize_segments_answers:
  "summarize_segments create lc mn i texts acc st = (Inr summaries, st', tr) \<Longrightarrow>
   \<exists>new. summaries = acc @ new
         \<and> answers create st (map (\<lambda>(j, c). segment_request lc mn j c) (enumerate i texts))
             = (map Inr new, st')"
proof (induction texts arbitrary: i acc st tr)
  case Nil
  then show ?case by simp
next
  case (Cons c texts)
  from Cons.prems obtain content st1 tr1 where
    call: "create st (segment_request lc mn i c) = (Inr content, st1)" and
    rest: "summarize_segments create lc mn (Suc i) texts (acc @ [content]) st1
             = (Inr summaries, st', tr1)"
    by (auto simp: Let_def split: prod.splits sum.splits)
  from Cons.IH [OF rest] obtain new where
    new: "summaries = (acc @ [content]) @ new"
         "answers create st1 (map (\<lambda>(j, c). segment_request lc mn j c) (enumerate (Suc i) texts))
            = (map Inr new, st')"
    by blast
  show ?case
  proof (intro exI conjI)
    show "summaries = acc @ (content # new)" using new(1) by simp
    show "answers create st (map (\<lambda>(j, c). segment_request lc mn j c) (enumerate i (c # texts)))
            = (map Inr (content # new), st')"
      using call new(2) by simp
  qed
qed

text \<open>
  C5: in every run of the pipeline that returns a summary \<open>out\<close>, over the \<open>N\<close> segments of
  the transcript: the \<open>N\<close> segment requests were put to the completion service one after
  the other in index order, each in the state that the answer to the one before it left,
  and the service answered each with a text; then exactly one synthesis request, built
  from these \<open>N\<close> texts, was put to the service in the state the last segment answer left,
  and the service answered it with \<open>out\<close>. The run returns \<open>out\<close> and nothing else, leaves
  the service in the state after that last answer, and its events are the request for
  segment 0, its response, the request for segment 1, its response, and so on, then the
  synthesis request and its response.
\<close>

theorem successful_run_is_sequential:
  assumes "fst (summarize_with_groq text_splitter create st transcript lc mn m) = Inr out"
  shows "\<exists>summaries st1 st2.
           length summaries = length (text_splitter transcript)
           \<and> answers create st
                 (map (\<lambda>(i, c). segment_request lc mn i c)
                      (enumerate 0 (text_splitter transcript)))
               = (map Inr summaries, st1)
           \<and> create st1 (final_request lc mn summaries) = (Inr out, st2)
           \<and> summarize_with_groq text_splitter create st transcript lc mn m
               = (Inr out, st2,
                  segment_events lc mn 0 (text_splitter transcript) summaries
                    @ [Request (final_request lc mn summaries), Response (Inr out)])"
proof -
  obtain r st1 tr1 where
    loop: "summarize_segments create lc mn 0 (text_splitter transcript) [] st = (r, st1, tr1)"
    by (cases "summarize_segments create lc mn 0 (text_splitter transcript) [] st") auto
  show ?thesis
  proof (cases r)
    case (Inl e)
    with assms loop show ?thesis by (simp add: summarize_with_groq_def)
  next
    case (Inr summaries)
    from summarize_segments_success [OF loop [unfolded Inr]] have
      len: "length summaries = length (text_splitter transcript)" and
      tr1: "tr1 = segment_events lc mn 0 (text_splitter transcript) summaries"
      by auto
    from summarize_segments_answers [OF loop [unfolded Inr]] have
      chain: "answers create st
                (map (\<lambda>(i, c). segment_request lc mn i c)
                     (enumerate 0 (text_splitter transcript)))
              = (map Inr summaries, st1)"
      by auto
    obtain x st2 where call: "create st1 (final_request lc mn summaries) = (x, st2)"
      by (cases "create st1 (final_request lc mn summaries)") auto
    from assms loop Inr call have x: "x = Inr out"
      by (cases x) (simp_all add: summarize_with_groq_def Let_def)
    have run: "summarize_with_groq text_splitter create st transcript lc mn m
            = (Inr out, st2,
               segment_events lc mn 0 (text_splitter transcript) summaries
                 @ [Request (final_request lc mn summaries), Response (Inr out)])"
      using loop Inr call x tr1 by (simp add: summarize_with_groq_def Let_def)
    from len chain call [unfolded x] run show ?thesis by blast
  qed
qed

theorem successful_run_is_sequential_witness:
  "fst (summarize_with_groq (split_text 4 2)
          (\<lambda>n req. (Inr (replicate (Suc n) (CHR ''s'')), Suc n)) (0::nat)
          ''abcdefgh'' ''en'' ''llama'' ''video'') = Inr ''ssss''
   \<and> (\<exists>summaries st1 st2.
         length summaries = length (split_text 4 2 ''abcdefgh'')
         \<and> answers (\<lambda>n req. (Inr (replicate (Suc n) (CHR ''s'')), Suc n)) (0::nat)
               (map (\<lambda>(i, c). segment_request ''en'' ''llama'' i c)
                    (enumerate 0 (split_text 4 2 ''abcdefgh'')))
             = (map Inr summaries, st1)
         \<and> (\<lambda>n req. (Inr (replicate (Suc n) (CHR ''s'')), Suc n)) st1
               (final_request ''en'' ''llama'' summaries) = (Inr ''ssss'', st2)
         \<and> summarize_with_groq (split_text 4 2)
               (\<lambda>n req. (Inr (replicate (Suc n) (CHR ''s'')), Suc n)) (0::nat)
               ''abcdefgh'' ''en'' ''llama'' ''video''
             = (Inr ''ssss'', st2,
                segment_events ''en'' ''llama'' 0 (split_text 4 2 ''abcdefgh'') summaries
                  @ [Request (final_request ''en'' ''llama'' summaries),
                     Response (Inr ''ssss'')]))"
proof -
  have h: "fst (summarize_with_groq (split_text 4 2)
          (\<lambda>n req. (Inr (replicate (Suc n) (CHR ''s'')), Suc n)) (0::nat)
          ''abcdefgh'' ''en'' ''llama'' ''video'') = Inr ''ssss''"
    by (simp add: summarize_with_groq_def split_text_example Let_def)
  from successful_run_is_sequential
         [where text_splitter = "split_text 4 2" and transcript = "''abcdefgh''", OF h] h
  show ?thesis by blast
qed

text \<open>
  C7: for the empty transcript the Chunker yields the empty sequence of segments; the
  pipeline then issues no segment request at all, only the synthesis request over no
  summaries; and, the synthesis call returning a text, the pipeline returns that text
  without raising: an empty sequence of segments is no error.
\<close>

theorem empty_transcript_pipeline:
  "split_text 7000 1000 [] = []
   \<and> issued (snd (snd (summarize_with_groq (split_text 7000 1000) create st [] lc mn m)))
       = [final_request lc mn []]
   \<and> (create st (final_request lc mn []) = (Inr out, st') \<longrightarrow>
        summarize_with_groq (split_text 7000 1000) create st [] lc mn m
          = (Inr out, st', [Request (final_request lc mn []), Response (Inr out)]))"
  by (cases "create st (final_request lc mn [])"; case_tac a;
      simp add: summarize_with_groq_def split_text_empty Let_def)

theorem empty_transcript_pipeline_witness:
  "(\<lambda>(n::nat) req. (Inr ''nothing to summarize'', Suc n)) 0 (final_request ''en'' ''llama'' [])
      = (Inr ''nothing to summarize'', 1)
   \<and> summarize_with_groq (split_text 7000 1000)
        (\<lambda>(n::nat) req. (Inr ''nothing to summarize'', Suc n)) 0 [] ''en'' ''llama'' ''video''
      = (Inr ''nothing to summarize'', 1,
         [Request (final_request ''en'' ''llama'' []),
          Response (Inr ''nothing to summarize'')])"
  using empty_transcript_pipeline
          [of "\<lambda>(n::nat) req. (Inr ''nothing to summarize'', Suc n)" 0 "''en''" "''llama''"
              "''video''" "''nothing to summarize''" 1]
  by simp

section \<open>The mode field\<close>

lemma summarize_with_groq_mode:
  "summarize_with_groq text_splitter create st transcript lc mn m1
     = summarize_with_groq text_splitter create st transcript lc mn m2"
  by (simp add: summarize_with_groq_def)

text \<open>
  C9: two requests that agree on every field but \<open>mode\<close> give the same run of the handler:
  the same result, the same final state of the completion service and the same sequence
  of completion requests and responses. The mode is accepted and never read.
\<close>

theorem mode_noninterference:
  assumes "youtube_url r1 = youtube_url r2"
    and "target_language r1 = target_language r2"
    and "user_email r1 = user_email r2"
  shows "summarize_video text_splitter transcript_source create st r1
           = summarize_video text_splitter transcript_source create st r2"
  unfolding summarize_video_def assms(1,2)
    summarize_with_groq_mode [of _ _ _ _ _ _ "mode r1" "mode r2"]
  by (rule refl)

theorem mode_noninterference_witness:
  "youtube_url \<lparr>youtube_url = ''dQw4w9WgXcQ'', target_language = ''en'', mode = ''video'',
                user_email = ''a@b.c''\<rparr>
     = youtube_url \<lparr>youtube_url = ''dQw4w9WgXcQ'', target_language = ''en'', mode = ''audio'',
                    user_email = ''a@b.c''\<rparr>
   \<and> summarize_video (split_text 4 2) (\<lambda>v. Inr (''abcdefgh'', ''de''))
         (\<lambda>n req. (if n = 1 then Inl ''down'' else Inr ''ok'', Suc n)) (0::nat)
         \<lparr>youtube_url = ''dQw4w9WgXcQ'', target_language = ''en'', mode = ''video'',
          user_email = ''a@b.c''\<rparr>
     = summarize_video (split_text 4 2) (\<lambda>v. Inr (''abcdefgh'', ''de''))
         (\<lambda>n req. (if n = 1 then Inl ''down'' else Inr ''ok'', Suc n)) (0::nat)
         \<lparr>youtube_url = ''dQw4w9WgXcQ'', target_language = ''en'', mode = ''audio'',
          user_email = ''a@b.c''\<rparr>"
  using mode_noninterference
          [of "\<lparr>youtube_url = ''dQw4w9WgXcQ'', target_language = ''en'', mode = ''video'',
                user_email = ''a@b.c''\<rparr>"
              "\<lparr>youtube_url = ''dQw4w9WgXcQ'', target_language = ''en'', mode = ''audio'',
                user_email = ''a@b.c''\<rparr>"]
  by simp

section \<open>An unparseable reference at the handler\<close>

text \<open>
  C2 says that a request whose reference cannot be parsed is answered with a
  client-fault status and a descriptive message. For the reference \<open>not a url\<close>,
  \<open>get_transcript\<close> does raise status 400 with the extractor's message, but the handler
  catches that exception with every other one and answers with status 500 and the fixed
  detail \<open>Internal Server Error\<close>; no completion request is issued.
\<close>

theorem unparseable_reference_answered_with_500:
  "get_transcript transcript_source ''not a url''
     = Inl (HTTPException 400 ''Could not extract video ID from URL'')
   \<and> summarize_video text_splitter transcript_source create st
        \<lparr>youtube_url = ''not a url'', target_language = lang, mode = m, user_email = u\<rparr>
     = (Inl (HTTPException 500 ''Internal Server Error''), st, [])"
  by (simp add: summarize_video_def get_transcript_def extractor_defs)

end
